theory Spec2Isabelle
  imports Complex_Main "HOL-Library.Multiset"
begin

section \<open>Harmonic Depths: prime ratio math, voice manager and spatial model\<close>

text \<open>
  A shallow embedding of \<^verbatim>\<open>src/harmonic-engine.js\<close> and \<^verbatim>\<open>src/harmonic-space.js\<close>.

  JavaScript numbers are modelled as \<^typ>\<open>real\<close>: the properties below are statements
  about comparisons, halving, doubling and products of the quantities involved, and are
  read over the real numbers (no \<^verbatim>\<open>NaN\<close>, no infinities, no rounding). Array indices and
  the entries of \<^verbatim>\<open>PRIMES\<close> are natural numbers, converted with \<^term>\<open>real\<close> where
  the source mixes them with other numbers.
\<close>

subsection \<open>harmonic-engine.js: constants\<close>

definition PRIMES :: "nat list" where
  "PRIMES = [2, 3, 5, 7, 11, 13, 17, 19, 23, 29, 31, 37, 41, 43, 47, 53, 59, 61, 67, 71,
             73, 79, 83, 89, 97]"

record color =
  c_h :: nat
  c_s :: nat
  c_l :: nat

definition PRIME_COLORS :: "(nat \<times> color) list" where
  "PRIME_COLORS =
    [(2, \<lparr>c_h = 220, c_s = 30, c_l = 60\<rparr>),
     (3, \<lparr>c_h = 200, c_s = 40, c_l = 55\<rparr>),
     (5, \<lparr>c_h = 45, c_s = 50, c_l = 55\<rparr>),
     (7, \<lparr>c_h = 280, c_s = 45, c_l = 50\<rparr>),
     (11, \<lparr>c_h = 320, c_s = 50, c_l = 50\<rparr>),
     (13, \<lparr>c_h = 160, c_s = 45, c_l = 45\<rparr>),
     (17, \<lparr>c_h = 30, c_s = 55, c_l = 50\<rparr>),
     (19, \<lparr>c_h = 350, c_s = 50, c_l = 55\<rparr>),
     (23, \<lparr>c_h = 180, c_s = 40, c_l = 45\<rparr>),
     (29, \<lparr>c_h = 260, c_s = 45, c_l = 50\<rparr>),
     (31, \<lparr>c_h = 100, c_s = 40, c_l = 45\<rparr>),
     (37, \<lparr>c_h = 15, c_s = 50, c_l = 50\<rparr>),
     (41, \<lparr>c_h = 240, c_s = 35, c_l = 55\<rparr>),
     (43, \<lparr>c_h = 140, c_s = 40, c_l = 45\<rparr>),
     (47, \<lparr>c_h = 300, c_s = 40, c_l = 50\<rparr>)]"

definition PRIME_COLORS_default :: color where
  "PRIME_COLORS_default = \<lparr>c_h = 200, c_s = 30, c_l = 50\<rparr>"

text \<open>\<^verbatim>\<open>PRIME_COLORS[prime] || PRIME_COLORS.default\<close>\<close>

definition prime_color :: "nat \<Rightarrow> color" where
  "prime_color p = (case map_of PRIME_COLORS p of Some c \<Rightarrow> c | None \<Rightarrow> PRIME_COLORS_default)"

subsection \<open>harmonic-engine.js: getPrimeRatio and getPrimeHarmonics\<close>

text \<open>
  \<^verbatim>\<open>let ratio = prime; while (ratio >= 4) { ratio /= 2; } return ratio;\<close>
  The loop is the recursion; it is total on the reals, by the measure \<open>\<lceil>ratio\<rceil>\<close>.
\<close>

function getPrimeRatio :: "real \<Rightarrow> real" where
  "getPrimeRatio ratio = (if ratio \<ge> 4 then getPrimeRatio (ratio / 2) else ratio)"
  by pat_completeness auto
termination
proof (relation "measure (\<lambda>r. nat \<lceil>r\<rceil>)")
  show "wf (measure (\<lambda>r. nat \<lceil>r\<rceil>))" by simp
next
  fix r :: real
  assume "4 \<le> r"
  then have "\<lceil>r / 2\<rceil> < \<lceil>r\<rceil>" and "0 < \<lceil>r\<rceil>" by linarith+
  then show "(r / 2, r) \<in> measure (\<lambda>r. nat \<lceil>r\<rceil>)" by simp
qed

declare getPrimeRatio.simps [simp del]

text \<open>The objects pushed by \<^verbatim>\<open>getPrimeHarmonics\<close>.\<close>

record harmonic_entry =
  e_ratio :: real
  frequency :: real
  foldedRatio :: real
  multiplier :: real

text \<open>
  \<^verbatim>\<open>while (true) { ...; if (frequency > maxFreq) break; harmonics.push(...); multiplier *= 2; }\<close>
  The loop has no bound of its own, so it is a partial function: \<open>None\<close> is "never returns".
\<close>

partial_function (option) getPrimeHarmonics_loop ::
  "real \<Rightarrow> real \<Rightarrow> real \<Rightarrow> real \<Rightarrow> harmonic_entry list \<Rightarrow> harmonic_entry list option" where
  "getPrimeHarmonics_loop p fund maxFreq mul hs =
     (let harmonic = p * mul;
          freq = fund * harmonic
      in if freq > maxFreq then Some hs
         else getPrimeHarmonics_loop p fund maxFreq (mul * 2)
                (hs @ [\<lparr>e_ratio = harmonic, frequency = freq,
                         foldedRatio = getPrimeRatio harmonic, multiplier = mul\<rparr>]))"

definition getPrimeHarmonics :: "real \<Rightarrow> real \<Rightarrow> real \<Rightarrow> harmonic_entry list option" where
  "getPrimeHarmonics p fund maxFreq = getPrimeHarmonics_loop p fund maxFreq 1 []"

subsection \<open>harmonic-engine.js: the HarmonicEngine class\<close>

text \<open>
  The Web Audio nodes are records of the attributes the engine writes. An
  \<^verbatim>\<open>AudioParam\<close>'s automation is the list of the scheduling calls made on it; the audio
  thread's interpolation of them is the platform's and is not modelled, so reading
  \<^verbatim>\<open>gain.gain.value\<close> gives the value last assigned.
\<close>

datatype automation =
    CancelScheduledValues real
  | SetValueAtTime real real
  | ExponentialRampToValueAtTime real real

record osc_node =
  osc_type :: string
  frequency_value :: real
  osc_connected :: bool
  started :: bool
  stopped :: bool

record gain_node =
  gain_value :: real
  scheduled :: "automation list"
  gain_connected :: bool

record voice =
  oscillator :: osc_node
  gain :: gain_node
  targetGain :: real
  v_ratio :: real

text \<open>
  A pending \<^verbatim>\<open>setTimeout\<close> of \<^verbatim>\<open>releaseVoice\<close>: its delay in milliseconds and the two
  variables its closure captures, the voice object (a reference) and the id.
\<close>

datatype timer = Decommission real nat string

datatype js_error = TypeError

text \<open>
  Voice objects are mutable and are referenced both from the \<^verbatim>\<open>voices\<close> Map and from the
  timers' closures, so they live in a store (\<open>heap\<close>) and are named by reference.
  \<open>audioContext = None\<close> is \<^verbatim>\<open>null\<close>; \<open>Some t\<close> is a context whose \<^verbatim>\<open>currentTime\<close> is \<open>t\<close>.
\<close>

record engine =
  audioContext :: "real option"
  masterGain :: "gain_node option"
  fundamentalOsc :: "osc_node option"
  fundamentalGain :: "gain_node option"
  voices :: "string \<rightharpoonup> nat"
  heap :: "nat \<rightharpoonup> voice"
  next_ref :: nat
  fundamental :: real
  masterVolume :: real
  isInitialized :: bool
  timers :: "timer list"

definition new_engine :: engine where
  "new_engine = \<lparr>audioContext = None, masterGain = None, fundamentalOsc = None,
     fundamentalGain = None, voices = Map.empty, heap = Map.empty, next_ref = 0,
     fundamental = 110, masterVolume = 0.4, isInitialized = False, timers = []\<rparr>"

text \<open>
  \<^verbatim>\<open>init\<close>: the audio context, the master gain and the fundamental drone. The reverb,
  the compressor and the dry and wet gains are nodes no operation below reads or writes;
  they are left out.
\<close>

definition init :: "engine \<Rightarrow> engine" where
  "init e =
     (if isInitialized e then e
      else e\<lparr>audioContext := Some 0,
             masterGain := Some \<lparr>gain_value = masterVolume e, scheduled = [],
                                  gain_connected = True\<rparr>,
             fundamentalOsc := Some \<lparr>osc_type = ''sine'', frequency_value = fundamental e,
                                      osc_connected = True, started = True, stopped = False\<rparr>,
             fundamentalGain := Some \<lparr>gain_value = 0.08, scheduled = [],
                                       gain_connected = True\<rparr>,
             isInitialized := True\<rparr>)"

text \<open>
  \<^verbatim>\<open>createVoice(id, ratio)\<close> returns the voice (its reference) and the new state.
  \<^verbatim>\<open>this.audioContext.createOscillator()\<close> on a \<^verbatim>\<open>null\<close> context throws.
\<close>

definition createVoice :: "string \<Rightarrow> real \<Rightarrow> engine \<Rightarrow> js_error + (nat \<times> engine)" where
  "createVoice i r e =
     (case voices e i of
        Some v \<Rightarrow> Inr (v, e)
      | None \<Rightarrow>
         (case audioContext e of
            None \<Rightarrow> Inl TypeError
          | Some now \<Rightarrow>
             (let osc = \<lparr>osc_type = ''sine'', frequency_value = fundamental e * r,
                         osc_connected = True, started = True, stopped = False\<rparr>;
                  g = \<lparr>gain_value = 0, scheduled = [], gain_connected = True\<rparr>;
                  v = \<lparr>oscillator = osc, gain = g, targetGain = 0, v_ratio = r\<rparr>;
                  ref = next_ref e
              in Inr (ref, e\<lparr>voices := (voices e)(i \<mapsto> ref),
                             heap := (heap e)(ref \<mapsto> v),
                             next_ref := ref + 1\<rparr>))))"

text \<open>
  The three calls on \<^verbatim>\<open>voice.gain.gain\<close> that \<^verbatim>\<open>setVoiceAmplitude\<close> and
  \<^verbatim>\<open>releaseVoice\<close> share.
\<close>

definition ramp_gain :: "real \<Rightarrow> real \<Rightarrow> real \<Rightarrow> gain_node \<Rightarrow> gain_node" where
  "ramp_gain now target t g =
     g\<lparr>scheduled := scheduled g @
          [CancelScheduledValues now, SetValueAtTime (gain_value g) now,
           ExponentialRampToValueAtTime target (now + t)]\<rparr>"

text \<open>
  \<^verbatim>\<open>setVoiceAmplitude(id, amplitude, time = 0.1)\<close>. A reference of the Map always has its
  object in the store; the branch for a missing one is there to keep the function total.
\<close>

definition setVoiceAmplitude :: "string \<Rightarrow> real \<Rightarrow> real \<Rightarrow> engine \<Rightarrow> js_error + engine" where
  "setVoiceAmplitude i a t e =
     (case voices e i of
        None \<Rightarrow> Inr e
      | Some ref \<Rightarrow>
         (case audioContext e of
            None \<Rightarrow> Inl TypeError
          | Some now \<Rightarrow>
             (case heap e ref of
                None \<Rightarrow> Inl TypeError
              | Some v \<Rightarrow>
                 Inr (e\<lparr>heap := (heap e)(ref \<mapsto>
                        v\<lparr>targetGain := a,
                          gain := ramp_gain now (max a 0.0001) t (gain v)\<rparr>)\<rparr>))))"

text \<open>\<^verbatim>\<open>releaseVoice(id, fadeTime = 0.5)\<close>: the fade, and the timer for the clean-up.\<close>

definition releaseVoice :: "string \<Rightarrow> real \<Rightarrow> engine \<Rightarrow> js_error + engine" where
  "releaseVoice i fadeTime e =
     (case voices e i of
        None \<Rightarrow> Inr e
      | Some ref \<Rightarrow>
         (case audioContext e of
            None \<Rightarrow> Inl TypeError
          | Some now \<Rightarrow>
             (case heap e ref of
                None \<Rightarrow> Inl TypeError
              | Some v \<Rightarrow>
                 Inr (e\<lparr>heap := (heap e)(ref \<mapsto>
                          v\<lparr>gain := ramp_gain now 0.0001 fadeTime (gain v)\<rparr>),
                        timers := timers e @
                          [Decommission (fadeTime * 1000 + 100) ref i]\<rparr>))))"

text \<open>
  The body of the timer's callback:
  \<^verbatim>\<open>voice.oscillator.stop(); voice.oscillator.disconnect(); voice.gain.disconnect();
  this.voices.delete(id);\<close>
  The voice is the object the closure captured, whatever the Map holds for the id by now.
  (The captured reference always has its object in the store; the first branch keeps the
  function total.)
\<close>

fun run_timer :: "timer \<Rightarrow> engine \<Rightarrow> engine" where
  "run_timer (Decommission d ref i) e =
     (case heap e ref of
        None \<Rightarrow> e\<lparr>voices := (voices e)(i := None)\<rparr>
      | Some v \<Rightarrow>
          e\<lparr>heap := (heap e)(ref \<mapsto>
               v\<lparr>oscillator := (oscillator v)\<lparr>stopped := True, osc_connected := False\<rparr>,
                 gain := (gain v)\<lparr>gain_connected := False\<rparr>\<rparr>),
            voices := (voices e)(i := None)\<rparr>)"

text \<open>The event loop fires the \<open>k\<close>-th pending timer: it leaves the queue and its callback runs.\<close>

definition fire_timer :: "nat \<Rightarrow> engine \<Rightarrow> engine" where
  "fire_timer k e =
     (if k < length (timers e)
      then run_timer (timers e ! k) (e\<lparr>timers := take k (timers e) @ drop (Suc k) (timers e)\<rparr>)
      else e)"

subsection \<open>harmonic-space.js: the HarmonicSpace class\<close>

definition PHI :: real where
  "PHI = (1 + sqrt 5) / 2"

record harmonic =
  h_id :: string
  prime :: nat
  ratio :: real
  h_x :: real
  h_y :: real
  baseX :: real
  baseY :: real
  h_size :: real
  baseSize :: real
  color :: color
  amplitude :: real
  glow :: real
  phase :: real
  breathRate :: real
  isExotic :: bool
  visibilityDepth :: real
  wanderAngle :: real
  wanderSpeed :: real

text \<open>
  \<open>random\<close> is the sequence of the results the coming calls of \<^verbatim>\<open>Math.random()\<close> return,
  each in \<open>[0, 1)\<close>; a call takes the head and leaves the rest.
\<close>

record hspace =
  width :: real
  height :: real
  center_x :: real
  center_y :: real
  depth :: real
  time :: real
  harmonics :: "harmonic list"
  random :: "nat \<Rightarrow> real"

text \<open>The decimal digits of a number, for the template literal \<^verbatim>\<open>`prime_${prime}`\<close>.\<close>

function show_nat :: "nat \<Rightarrow> string" where
  "show_nat n =
     (if n < 10 then [''0123456789'' ! n]
      else show_nat (n div 10) @ [''0123456789'' ! (n mod 10)])"
  by pat_completeness auto
termination
  by (relation "measure (\<lambda>n. n)") auto

declare show_nat.simps [simp del]

text \<open>
  The object that one round of the loop of \<^verbatim>\<open>generateHarmonics\<close> pushes, for index \<open>i\<close>.
  The three calls of \<^verbatim>\<open>Math.random()\<close> are those of \<^verbatim>\<open>phase\<close>, \<^verbatim>\<open>wanderAngle\<close> and
  \<^verbatim>\<open>wanderSpeed\<close>, in the order of the object literal.
\<close>

definition make_harmonic :: "hspace \<Rightarrow> real \<Rightarrow> nat \<Rightarrow> (nat \<Rightarrow> real) \<Rightarrow> harmonic" where
  "make_harmonic sp baseRadius i rnd =
     (let p = PRIMES ! i;
          r = getPrimeRatio (real p);
          col = prime_color p;
          goldenAngle = pi * 2 / (PHI * PHI);
          angle = real i * goldenAngle + real p * 0.1;
          normalizedIndex = real i / (real (length PRIMES) - 1);
          distanceBase = 0.25 + normalizedIndex * 0.5;
          distanceVariation = sin (real p * 0.7) * 0.1;
          dist_c = baseRadius * (distanceBase + distanceVariation);
          x = center_x sp + cos angle * dist_c;
          y = center_y sp + sin angle * dist_c;
          baseSize0 = 30 - real i * 0.8;
          size0 = max 12 baseSize0
      in \<lparr>h_id = ''prime_'' @ show_nat p,
          prime = p,
          ratio = r,
          h_x = x,
          h_y = y,
          baseX = x,
          baseY = y,
          h_size = size0,
          baseSize = size0,
          color = col,
          amplitude = 0,
          glow = 0,
          phase = rnd 0 * pi * 2,
          breathRate = 0.5 + real p * 0.02,
          isExotic = (p \<ge> 7),
          visibilityDepth = max 0 ((real i - 4) / 15),
          wanderAngle = rnd 1 * pi * 2,
          wanderSpeed = 0.1 + rnd 2 * 0.2\<rparr>)"

text \<open>\<^verbatim>\<open>for (let i = 0; i < PRIMES.length; i++) { ...; this.harmonics.push({...}); }\<close>\<close>

primrec generateHarmonics_loop ::
  "hspace \<Rightarrow> real \<Rightarrow> nat list \<Rightarrow> harmonic list \<Rightarrow> (nat \<Rightarrow> real)
     \<Rightarrow> harmonic list \<times> (nat \<Rightarrow> real)" where
  "generateHarmonics_loop sp baseRadius [] hs rnd = (hs, rnd)"
| "generateHarmonics_loop sp baseRadius (i # is) hs rnd =
     generateHarmonics_loop sp baseRadius is
       (hs @ [make_harmonic sp baseRadius i rnd]) (\<lambda>n. rnd (n + 3))"

definition generateHarmonics :: "hspace \<Rightarrow> hspace" where
  "generateHarmonics sp =
     (let minDim = min (width sp) (height sp);
          baseRadius = minDim * 0.35;
          (hs, rnd) = generateHarmonics_loop sp baseRadius [0..<length PRIMES] [] (random sp)
      in sp\<lparr>harmonics := hs, random := rnd\<rparr>)"

text \<open>The constructor \<^verbatim>\<open>new HarmonicSpace(width, height)\<close>, with the random source it will use.\<close>

definition new_space :: "real \<Rightarrow> real \<Rightarrow> (nat \<Rightarrow> real) \<Rightarrow> hspace" where
  "new_space w h rnd =
     generateHarmonics
       \<lparr>width = w, height = h, center_x = w / 2, center_y = h / 2, depth = 0, time = 0,
        harmonics = [], random = rnd\<rparr>"

definition resize :: "real \<Rightarrow> real \<Rightarrow> hspace \<Rightarrow> hspace" where
  "resize w h sp =
     (let oldCenter_x = center_x sp;
          oldCenter_y = center_y sp;
          sp1 = sp\<lparr>width := w, height := h, center_x := w / 2, center_y := h / 2\<rparr>;
          dx = center_x sp1 - oldCenter_x;
          dy = center_y sp1 - oldCenter_y;
          sp2 = sp1\<lparr>harmonics :=
                  map (\<lambda>a. a\<lparr>h_x := h_x a + dx, h_y := h_y a + dy,
                              baseX := baseX a + dx, baseY := baseY a + dy\<rparr>)
                      (harmonics sp1)\<rparr>
      in generateHarmonics sp2)"

definition setDepth :: "real \<Rightarrow> hspace \<Rightarrow> hspace" where
  "setDepth d sp = sp\<lparr>depth := max 0 (min 1 d)\<rparr>"

text \<open>\<^verbatim>\<open>update(deltaTime)\<close>: the body of its loop, then the method.\<close>

definition update_harmonic :: "real \<Rightarrow> real \<Rightarrow> harmonic \<Rightarrow> harmonic" where
  "update_harmonic t deltaTime a =
     (let breath = sin (t * breathRate a + phase a);
          a1 = a\<lparr>h_size := baseSize a * (1 + breath * 0.1)\<rparr>;
          a2 = a1\<lparr>wanderAngle := wanderAngle a1 + wanderSpeed a1 * deltaTime * 0.3\<rparr>;
          wanderAmount = 3 + amplitude a2 * 5;
          a3 = a2\<lparr>h_x := baseX a2 + cos (wanderAngle a2) * wanderAmount,
                  h_y := baseY a2 + sin (wanderAngle a2 * 0.7) * wanderAmount\<rparr>
      in a3\<lparr>glow := glow a3 + (amplitude a3 - glow a3) * deltaTime * 5\<rparr>)"

definition update :: "real \<Rightarrow> hspace \<Rightarrow> hspace" where
  "update deltaTime sp =
     (let sp1 = sp\<lparr>time := time sp + deltaTime\<rparr>
      in sp1\<lparr>harmonics := map (update_harmonic (time sp1) deltaTime) (harmonics sp1)\<rparr>)"

definition getVisibleHarmonics :: "hspace \<Rightarrow> harmonic list" where
  "getVisibleHarmonics sp = filter (\<lambda>a. visibilityDepth a \<le> depth sp + 0.3) (harmonics sp)"

text \<open>The objects of the result of \<^verbatim>\<open>getHarmonicsNear\<close>.\<close>

record near_entry =
  harmonic :: harmonic
  distance :: real
  influence :: real

text \<open>\<^verbatim>\<open>for (const h of visible) { ...; if (distance < radius + h.size) near.push({...}); }\<close>\<close>

primrec near_loop ::
  "real \<Rightarrow> real \<Rightarrow> real \<Rightarrow> harmonic list \<Rightarrow> near_entry list \<Rightarrow> near_entry list" where
  "near_loop x y radius [] near = near"
| "near_loop x y radius (a # as) near =
     (let dx = h_x a - x;
          dy = h_y a - y;
          d = sqrt (dx * dx + dy * dy)
      in near_loop x y radius as
           (if d < radius + h_size a
            then near @ [\<lparr>harmonic = a, distance = d,
                          influence = max 0 (1 - d / (radius + h_size a))\<rparr>]
            else near))"

text \<open>
  \<^verbatim>\<open>near.sort((a, b) => a.distance - b.distance)\<close>: \<^verbatim>\<open>Array.prototype.sort\<close> is stable,
  as the insertion sort \<^const>\<open>sort_key\<close> is.
\<close>

definition getHarmonicsNear :: "real \<Rightarrow> real \<Rightarrow> real \<Rightarrow> hspace \<Rightarrow> near_entry list" where
  "getHarmonicsNear x y radius sp =
     (let visible = getVisibleHarmonics sp;
          near = near_loop x y radius visible []
      in sort_key distance near)"

text \<open>
  \<^verbatim>\<open>const h = this.harmonics.find(h => h.id === id); if (h) { h.amplitude = amplitude; }\<close>
  The first harmonic with the id is the one written.
\<close>

primrec set_first_amplitude :: "string \<Rightarrow> real \<Rightarrow> harmonic list \<Rightarrow> harmonic list" where
  "set_first_amplitude i v [] = []"
| "set_first_amplitude i v (a # as) =
     (if h_id a = i then a\<lparr>amplitude := v\<rparr> # as else a # set_first_amplitude i v as)"

definition setHarmonicAmplitude :: "string \<Rightarrow> real \<Rightarrow> hspace \<Rightarrow> hspace" where
  "setHarmonicAmplitude i v sp = sp\<lparr>harmonics := set_first_amplitude i v (harmonics sp)\<rparr>"

definition getHarmonic :: "string \<Rightarrow> hspace \<Rightarrow> harmonic option" where
  "getHarmonic i sp = find (\<lambda>a. h_id a = i) (harmonics sp)"

text \<open>
  \<^verbatim>\<open>updateHarmonicsFromCursor\<close> (the application): the amplitude it computes for an
  entry of \<^verbatim>\<open>getHarmonicsNear\<close> before it calls \<^verbatim>\<open>setHarmonicAmplitude\<close>:
  \<^verbatim>\<open>Math.min(0.8, influence * baseIntensity * (1 / Math.sqrt(harmonic.prime / 2)))\<close> with
  \<^verbatim>\<open>baseIntensity = this.isMouseDown ? 0.6 : 0.25\<close>.
\<close>

definition cursor_amplitude :: "bool \<Rightarrow> near_entry \<Rightarrow> real" where
  "cursor_amplitude isMouseDown n =
     (let baseIntensity = (if isMouseDown then 0.6 else 0.25);
          a = influence n * baseIntensity * (1 / sqrt (real (prime (harmonic n)) / 2))
      in min 0.8 a)"

subsection \<open>Sequences of calls on a HarmonicSpace\<close>

text \<open>
  The calls a client can make on a \<^verbatim>\<open>HarmonicSpace\<close> that change its state, and a run of
  a sequence of them, one after the other.
\<close>

datatype space_op =
    SetHarmonicAmplitude string real
  | SetDepth real
  | Update real
  | Resize real real

fun apply_op :: "space_op \<Rightarrow> hspace \<Rightarrow> hspace" where
  "apply_op (SetHarmonicAmplitude i v) sp = setHarmonicAmplitude i v sp"
| "apply_op (SetDepth d) sp = setDepth d sp"
| "apply_op (Update deltaTime) sp = update deltaTime sp"
| "apply_op (Resize w h) sp = resize w h sp"

definition run_ops :: "space_op list \<Rightarrow> hspace \<Rightarrow> hspace" where
  "run_ops ops sp = fold apply_op ops sp"

text \<open>The amplitude passed by a call lies in \<open>[0, 0.8]\<close>.\<close>

fun amplitude_input_ok :: "space_op \<Rightarrow> bool" where
  "amplitude_input_ok (SetHarmonicAmplitude i v) = (0 \<le> v \<and> v \<le> 0.8)"
| "amplitude_input_ok (SetDepth d) = True"
| "amplitude_input_ok (Update deltaTime) = True"
| "amplitude_input_ok (Resize w h) = True"

text \<open>Every harmonic's amplitude lies in \<open>[0, 0.8]\<close>.\<close>

definition amplitudes_in_range :: "hspace \<Rightarrow> bool" where
  "amplitudes_in_range sp =
     list_all (\<lambda>a. 0 \<le> amplitude a \<and> amplitude a \<le> 0.8) (harmonics sp)"

subsection \<open>A scenario for the proximity query\<close>

text \<open>A space that holds one harmonic, of size 20, at the point \<open>(60, 0)\<close>.\<close>

definition scenario_harmonic :: harmonic where
  "scenario_harmonic =
     \<lparr>h_id = ''prime_2'', prime = 2, ratio = 2, h_x = 60, h_y = 0, baseX = 60, baseY = 0,
      h_size = 20, baseSize = 20, color = prime_color 2, amplitude = 0, glow = 0, phase = 0,
      breathRate = 0.54, isExotic = False, visibilityDepth = 0, wanderAngle = 0,
      wanderSpeed = 0.1\<rparr>"

definition scenario_space :: hspace where
  "scenario_space =
     \<lparr>width = 800, height = 600, center_x = 400, center_y = 300, depth = 0, time = 0,
      harmonics = [scenario_harmonic], random = (\<lambda>n. 0)\<rparr>"

section \<open>Properties of the prime ratio math\<close>

lemma getPrimeRatio_small: "r < 4 \<Longrightarrow> getPrimeRatio r = r"
  by (simp add: getPrimeRatio.simps)

lemma getPrimeRatio_halve: "4 \<le> r \<Longrightarrow> getPrimeRatio r = getPrimeRatio (r / 2)"
  by (subst getPrimeRatio.simps) simp

lemma getPrimeRatio_bounds: "2 \<le> r \<Longrightarrow> 2 \<le> getPrimeRatio r \<and> getPrimeRatio r < 4"
proof (induction r rule: getPrimeRatio.induct)
  case (1 r)
  show ?case
  proof (cases "4 \<le> r")
    case True
    with 1 show ?thesis by (simp add: getPrimeRatio_halve)
  next
    case False
    with 1 show ?thesis by (simp add: getPrimeRatio_small)
  qed
qed

text \<open>
  C5. \<^verbatim>\<open>getPrimeRatio\<close> is total (its termination is proved with its definition), and for
  every positive integer \<open>n\<close> its result lies in \<open>[1, 4)\<close>; for every even \<open>n \<ge> 4\<close> the
  result for \<open>n\<close> is the result for \<open>n / 2\<close>, which is the integer \<open>n div 2\<close>.
\<close>

theorem getPrimeRatio_range_and_halving:
  "0 < n \<Longrightarrow>
     1 \<le> getPrimeRatio (real n) \<and> getPrimeRatio (real n) < 4 \<and>
     (even n \<and> 4 \<le> n \<longrightarrow>
        getPrimeRatio (real n) = getPrimeRatio (real n / 2) \<and> real n / 2 = real (n div 2))"
proof -
  assume pos: "0 < n"
  have range: "1 \<le> getPrimeRatio (real n) \<and> getPrimeRatio (real n) < 4"
  proof (cases "n = 1")
    case True
    then show ?thesis by (simp add: getPrimeRatio_small)
  next
    case False
    with pos have "2 \<le> real n" by simp
    from getPrimeRatio_bounds[OF this] show ?thesis by simp
  qed
  have halving:
    "getPrimeRatio (real n) = getPrimeRatio (real n / 2) \<and> real n / 2 = real (n div 2)"
    if "even n" "4 \<le> n"
  proof -
    from that(2) have "4 \<le> real n" by simp
    then have "getPrimeRatio (real n) = getPrimeRatio (real n / 2)"
      by (rule getPrimeRatio_halve)
    moreover from that(1) have "real n / 2 = real (n div 2)" by (auto elim: evenE)
    ultimately show ?thesis by simp
  qed
  from range halving show ?thesis by blast
qed

theorem getPrimeRatio_range_and_halving_witness:
  "0 < (12::nat) \<and> even (12::nat) \<and> 4 \<le> (12::nat) \<and>
   getPrimeRatio (real (12::nat)) = 3 \<and> getPrimeRatio (real (12::nat) / 2) = 3"
  using getPrimeRatio_range_and_halving[of 12]
  by (simp add: getPrimeRatio.simps)

lemma getPrimeHarmonics_loop_unroll:
  "(\<forall>j<d. fund * (p * 2 ^ (k + j)) \<le> maxFreq) \<Longrightarrow> maxFreq < fund * (p * 2 ^ (k + d)) \<Longrightarrow>
   getPrimeHarmonics_loop p fund maxFreq (2 ^ k) hs =
     Some (hs @ map (\<lambda>j. \<lparr>e_ratio = p * 2 ^ j, frequency = fund * (p * 2 ^ j),
                            foldedRatio = getPrimeRatio (p * 2 ^ j), multiplier = 2 ^ j\<rparr>)
                  [k..<k + d])"
proof (induction d arbitrary: k hs)
  case 0
  then show ?case
    by (subst getPrimeHarmonics_loop.simps) (simp add: Let_def)
next
  case (Suc d)
  from Suc.prems(1) have here: "fund * (p * 2 ^ k) \<le> maxFreq" by force
  have later: "\<forall>j<d. fund * (p * 2 ^ (Suc k + j)) \<le> maxFreq"
  proof (intro allI impI)
    fix j assume "j < d"
    then have "Suc j < Suc d" by simp
    with Suc.prems(1) have "fund * (p * 2 ^ (k + Suc j)) \<le> maxFreq" by blast
    then show "fund * (p * 2 ^ (Suc k + j)) \<le> maxFreq" by simp
  qed
  from Suc.prems(2) have stop: "maxFreq < fund * (p * 2 ^ (Suc k + d))" by simp
  have upt: "[k..<k + Suc d] = k # [Suc k..<Suc k + d]"
    by (simp add: upt_conv_Cons)
  have "getPrimeHarmonics_loop p fund maxFreq (2 ^ k) hs =
        getPrimeHarmonics_loop p fund maxFreq (2 ^ Suc k)
          (hs @ [\<lparr>e_ratio = p * 2 ^ k, frequency = fund * (p * 2 ^ k),
                   foldedRatio = getPrimeRatio (p * 2 ^ k), multiplier = 2 ^ k\<rparr>])"
    using here by (subst getPrimeHarmonics_loop.simps) (simp add: Let_def mult.commute)
  also note Suc.IH[OF later stop]
  finally show ?case
    by (simp only: upt append_assoc list.map append_Cons append_Nil)
qed

lemma exceeds_eventually:
  fixes c maxFreq :: real
  assumes "0 < c \<or> maxFreq < c"
  shows "\<exists>n. maxFreq < c * 2 ^ n"
proof (cases "maxFreq < c")
  case True
  then have "maxFreq < c * 2 ^ 0" by simp
  then show ?thesis by blast
next
  case False
  with assms have pos: "0 < c" by simp
  obtain n where "maxFreq / c < 2 ^ n"
    using real_arch_pow[of 2 "maxFreq / c"] by auto
  with pos have "maxFreq < c * 2 ^ n" by (simp add: pos_divide_less_eq mult.commute)
  then show ?thesis by blast
qed

lemma getPrimeHarmonics_loop_Some:
  assumes "getPrimeHarmonics_loop p fund maxFreq mul hs = Some res"
  shows "0 < fund * p \<or> maxFreq < fund * p \<or> mul < 1"
proof (rule getPrimeHarmonics_loop.raw_induct
    [where P = "\<lambda>p fund maxFreq mul hs res. 0 < fund * p \<or> maxFreq < fund * p \<or> mul < 1",
     OF _ assms])
  fix loop :: "real \<Rightarrow> real \<Rightarrow> real \<Rightarrow> real \<Rightarrow> harmonic_entry list \<Rightarrow> harmonic_entry list option"
  fix p fund maxFreq mul :: real
  fix hs res :: "harmonic_entry list"
  assume IH: "\<And>p fund maxFreq mul hs res. loop p fund maxFreq mul hs = Some res \<Longrightarrow>
      0 < fund * p \<or> maxFreq < fund * p \<or> mul < 1"
  assume body: "(let harmonic = p * mul; freq = fund * harmonic
      in if maxFreq < freq then Some hs
         else loop p fund maxFreq (mul * 2)
               (hs @ [\<lparr>e_ratio = harmonic, frequency = freq,
                        foldedRatio = getPrimeRatio harmonic, multiplier = mul\<rparr>])) = Some res"
  show "0 < fund * p \<or> maxFreq < fund * p \<or> mul < 1"
  proof (cases "maxFreq < fund * (p * mul)")
    case True
    show ?thesis
    proof (rule ccontr)
      assume "\<not> ?thesis"
      then have a: "fund * p \<le> 0" "fund * p \<le> maxFreq" "1 \<le> mul" by auto
      from a(3) a(1) have "(fund * p) * mul \<le> (fund * p) * 1"
        by (rule mult_left_mono_neg)
      with a(2) have "fund * (p * mul) \<le> maxFreq" by (simp add: mult.assoc)
      with True show False by simp
    qed
  next
    case False
    with body have "loop p fund maxFreq (mul * 2)
        (hs @ [\<lparr>e_ratio = p * mul, frequency = fund * (p * mul),
                 foldedRatio = getPrimeRatio (p * mul), multiplier = mul\<rparr>]) = Some res"
      by (simp add: Let_def)
    from IH[OF this] show ?thesis by auto
  qed
qed

text \<open>
  C6 as stated fails: with the fundamental 0 every candidate frequency is 0, which never
  exceeds 8000, and the loop of \<^verbatim>\<open>getPrimeHarmonics(2, 0, 8000)\<close> never ends.
\<close>

theorem getPrimeHarmonics_zero_fundamental_counterexample:
  "getPrimeHarmonics 2 0 8000 = None"
proof (cases "getPrimeHarmonics 2 0 8000")
  case None
  then show ?thesis .
next
  case (Some res)
  then have "getPrimeHarmonics_loop 2 0 8000 1 [] = Some res"
    by (simp add: getPrimeHarmonics_def)
  from getPrimeHarmonics_loop_Some[OF this] show ?thesis by simp
qed

text \<open>
  C6 (as amended). When \<open>fundamental * prime\<close> is positive (or the first candidate
  frequency \<open>fundamental * prime\<close> already exceeds \<open>maxFreq\<close>), \<^verbatim>\<open>getPrimeHarmonics\<close> returns
  a list: its \<open>i\<close>-th entry has the multiplier \<open>2 ^ i\<close> (1 first, doubled each step), the
  ratio \<open>prime * 2 ^ i\<close>, the frequency \<open>fundamental * (prime * 2 ^ i)\<close>, which is at most
  \<open>maxFreq\<close>, and the folded ratio of its ratio; the frequencies are strictly increasing;
  and the next candidate after the last entry exceeds \<open>maxFreq\<close>.
\<close>

theorem getPrimeHarmonics_octaves:
  assumes "0 < fund * p \<or> maxFreq < fund * p"
  shows "\<exists>hs. getPrimeHarmonics p fund maxFreq = Some hs \<and>
     (\<forall>i<length hs.
        multiplier (hs ! i) = 2 ^ i \<and>
        e_ratio (hs ! i) = p * 2 ^ i \<and>
        frequency (hs ! i) = fund * (p * 2 ^ i) \<and>
        foldedRatio (hs ! i) = getPrimeRatio (p * 2 ^ i) \<and>
        frequency (hs ! i) \<le> maxFreq) \<and>
     (\<forall>i. Suc i < length hs \<longrightarrow> frequency (hs ! i) < frequency (hs ! Suc i)) \<and>
     maxFreq < fund * (p * 2 ^ length hs)"
proof -
  define N where "N = (LEAST n. maxFreq < (fund * p) * 2 ^ n)"
  from exceeds_eventually[OF assms] obtain n where "maxFreq < (fund * p) * 2 ^ n" ..
  then have stopN: "maxFreq < (fund * p) * 2 ^ N"
    unfolding N_def by (rule LeastI)
  have below: "fund * (p * 2 ^ j) \<le> maxFreq" if "j < N" for j
  proof -
    from that have "\<not> maxFreq < (fund * p) * 2 ^ j"
      unfolding N_def by (rule not_less_Least)
    then show ?thesis by (simp add: mult.assoc)
  qed
  let ?entry = "\<lambda>j. \<lparr>e_ratio = p * 2 ^ j, frequency = fund * (p * 2 ^ j),
                       foldedRatio = getPrimeRatio (p * 2 ^ j), multiplier = 2 ^ j\<rparr>"
  let ?hs = "map ?entry [0..<N]"
  have "getPrimeHarmonics_loop p fund maxFreq (2 ^ 0) [] = Some ([] @ map ?entry [0..<0 + N])"
    by (rule getPrimeHarmonics_loop_unroll) (use below stopN in \<open>simp_all add: mult.assoc\<close>)
  then have res: "getPrimeHarmonics p fund maxFreq = Some ?hs"
    by (simp add: getPrimeHarmonics_def)
  have len: "length ?hs = N" by simp
  have fields: "\<forall>i<length ?hs.
        multiplier (?hs ! i) = 2 ^ i \<and>
        e_ratio (?hs ! i) = p * 2 ^ i \<and>
        frequency (?hs ! i) = fund * (p * 2 ^ i) \<and>
        foldedRatio (?hs ! i) = getPrimeRatio (p * 2 ^ i) \<and>
        frequency (?hs ! i) \<le> maxFreq"
    using below by simp
  have incr: "\<forall>i. Suc i < length ?hs \<longrightarrow> frequency (?hs ! i) < frequency (?hs ! Suc i)"
  proof (intro allI impI)
    fix i assume i: "Suc i < length ?hs"
    then have "0 < N" by simp
    then have "fund * (p * 2 ^ 0) \<le> maxFreq" by (rule below)
    with assms have pos: "0 < fund * p" by simp
    have "0 < (fund * p) * 2 ^ i" by (rule mult_pos_pos[OF pos]) simp
    then have "(fund * p) * 2 ^ i < (fund * p) * 2 ^ i + (fund * p) * 2 ^ i" by linarith
    also have "\<dots> = (fund * p) * (2 * 2 ^ i)" by (simp only: mult_2 distrib_left)
    finally have "(fund * p) * 2 ^ i < (fund * p) * (2 * 2 ^ i)" .
    then have "fund * (p * 2 ^ i) < fund * (p * 2 ^ Suc i)" by (simp only: mult.assoc power_Suc)
    moreover from i have "frequency (?hs ! i) = fund * (p * 2 ^ i)"
      and "frequency (?hs ! Suc i) = fund * (p * 2 ^ Suc i)" by simp_all
    ultimately show "frequency (?hs ! i) < frequency (?hs ! Suc i)" by (simp only:)
  qed
  have last: "maxFreq < fund * (p * 2 ^ length ?hs)"
    using stopN by (simp add: mult.assoc)
  from res fields incr last show ?thesis by blast
qed

theorem getPrimeHarmonics_octaves_witness:
  "(0::real) < 110 * 7 \<and>
   getPrimeHarmonics 7 110 8000 =
     Some [\<lparr>e_ratio = 7, frequency = 770, foldedRatio = 7 / 2, multiplier = 1\<rparr>,
           \<lparr>e_ratio = 14, frequency = 1540, foldedRatio = 7 / 2, multiplier = 2\<rparr>,
           \<lparr>e_ratio = 28, frequency = 3080, foldedRatio = 7 / 2, multiplier = 4\<rparr>,
           \<lparr>e_ratio = 56, frequency = 6160, foldedRatio = 7 / 2, multiplier = 8\<rparr>] \<and>
   (8000::real) < 110 * (7 * 2 ^ 4)"
  using getPrimeHarmonics_octaves[of 110 7 8000]
  by (simp add: getPrimeHarmonics_def getPrimeHarmonics_loop.simps getPrimeRatio.simps)

section \<open>Properties of the voice manager\<close>

text \<open>
  C3. With the fundamental at 110 Hz the source's \<^verbatim>\<open>getPrimeRatio\<close> gives 3.5 for the
  prime 7, and the voice created with it sounds at 385 Hz; for the prime 11 it gives 2.75,
  and 302.5 Hz. (The header comment and \<^verbatim>\<open>docs/harmonics.md\<close> say 7/4 and 192.5 Hz,
  11/8 and 151.25 Hz: the loop stops at the first value below 4, not below 2.)
\<close>

theorem prime_7_and_11_voice_frequencies:
  "fundamental (init new_engine) = 110 \<and>
   getPrimeRatio 7 = 7 / 2 \<and>
   (case createVoice ''prime_7'' (getPrimeRatio 7) (init new_engine) of
      Inl err \<Rightarrow> False
    | Inr (v, e) \<Rightarrow> map_option (frequency_value \<circ> oscillator) (heap e v) = Some 385) \<and>
   getPrimeRatio 11 = 11 / 4 \<and>
   (case createVoice ''prime_11'' (getPrimeRatio 11) (init new_engine) of
      Inl err \<Rightarrow> False
    | Inr (v, e) \<Rightarrow> map_option (frequency_value \<circ> oscillator) (heap e v) = Some (605 / 2))"
  by (simp add: createVoice_def init_def new_engine_def getPrimeRatio.simps)

text \<open>
  C8. When \<^verbatim>\<open>createVoice\<close> has returned a voice for an id, a second call for the same id
  (with any ratio) returns the same voice object and leaves the whole engine state as it
  is: the Map, the store of voice objects (oscillator, gain and ratio of the first voice)
  and the count of the objects allocated.
\<close>

theorem createVoice_idempotent:
  "createVoice i r e = Inr (v, e') \<Longrightarrow> createVoice i r' e' = Inr (v, e')"
  by (auto simp: createVoice_def Let_def split: option.splits)

theorem createVoice_idempotent_witness:
  "(case createVoice ''prime_7'' (7 / 2) (init new_engine) of
      Inl err \<Rightarrow> False
    | Inr (v, e') \<Rightarrow>
        voices e' ''prime_7'' = Some v \<and> createVoice ''prime_7'' 2 e' = Inr (v, e'))"
proof -
  obtain v e' where a: "createVoice ''prime_7'' (7 / 2) (init new_engine) = Inr (v, e')"
    by (simp add: createVoice_def init_def new_engine_def)
  have "voices e' ''prime_7'' = Some v"
    using a by (auto simp: createVoice_def init_def new_engine_def)
  with a createVoice_idempotent[OF a, of 2] show ?thesis by simp
qed

text \<open>
  C2. A voice is created, released with the default fade of 0.5 s, and \<^verbatim>\<open>createVoice\<close> is
  called again for its id while the timer of the release is pending. The call returns the
  voice that is fading (the id is still in the Map). When the timer fires, that voice's
  oscillator is stopped and the id leaves the Map: the voice the caller has just been
  given is destroyed by the stale clean-up.
\<close>

theorem stale_decommission_destroys_recreated_voice:
  "(case createVoice ''prime_7'' (7 / 2) (init new_engine) of
      Inl err \<Rightarrow> False
    | Inr (v1, e1) \<Rightarrow>
       (case releaseVoice ''prime_7'' 0.5 e1 of
          Inl err \<Rightarrow> False
        | Inr e2 \<Rightarrow>
           (case createVoice ''prime_7'' (7 / 2) e2 of
              Inl err \<Rightarrow> False
            | Inr (v2, e3) \<Rightarrow>
                v2 = v1 \<and>
                timers e3 = [Decommission 600 v1 ''prime_7''] \<and>
                voices e3 ''prime_7'' = Some v2 \<and>
                voices (fire_timer 0 e3) ''prime_7'' = None \<and>
                map_option (stopped \<circ> oscillator) (heap (fire_timer 0 e3) v2) = Some True)))"
  by (simp add: createVoice_def releaseVoice_def fire_timer_def init_def new_engine_def
      ramp_gain_def)

section \<open>Properties of the spatial model\<close>

subsection \<open>The harmonics that generateHarmonics builds\<close>

lemma generateHarmonics_loop_upt:
  "generateHarmonics_loop sp br [j..<j + m] hs rnd =
     (hs @ map (\<lambda>i. make_harmonic sp br i (\<lambda>n. rnd (n + 3 * (i - j)))) [j..<j + m],
      \<lambda>n. rnd (n + 3 * m))"
proof (induction m arbitrary: j hs rnd)
  case 0
  show ?case by simp
next
  case (Suc m)
  let ?rnd' = "\<lambda>n. rnd (n + 3)"
  have upt: "[j..<j + Suc m] = j # [Suc j..<Suc j + m]"
    by (simp add: upt_conv_Cons)
  have tail: "map (\<lambda>i. make_harmonic sp br i (\<lambda>n. ?rnd' (n + 3 * (i - Suc j)))) [Suc j..<Suc j + m] =
              map (\<lambda>i. make_harmonic sp br i (\<lambda>n. rnd (n + 3 * (i - j)))) [Suc j..<Suc j + m]"
  proof (rule map_cong[OF refl])
    fix k assume "k \<in> set [Suc j..<Suc j + m]"
    then have "3 * (k - Suc j) + 3 = 3 * (k - j)" by auto
    then have "(\<lambda>n. ?rnd' (n + 3 * (k - Suc j))) = (\<lambda>n. rnd (n + 3 * (k - j)))"
      by (simp only: add.assoc)
    then show "make_harmonic sp br k (\<lambda>n. ?rnd' (n + 3 * (k - Suc j))) =
               make_harmonic sp br k (\<lambda>n. rnd (n + 3 * (k - j)))"
      by (rule arg_cong)
  qed
  have rest: "(\<lambda>n. ?rnd' (n + 3 * m)) = (\<lambda>n. rnd (n + 3 * Suc m))"
    by (simp add: ac_simps)
  have "generateHarmonics_loop sp br [j..<j + Suc m] hs rnd =
        generateHarmonics_loop sp br [Suc j..<Suc j + m] (hs @ [make_harmonic sp br j rnd]) ?rnd'"
    by (simp only: upt generateHarmonics_loop.simps)
  also have "\<dots> = ((hs @ [make_harmonic sp br j rnd]) @
        map (\<lambda>i. make_harmonic sp br i (\<lambda>n. ?rnd' (n + 3 * (i - Suc j)))) [Suc j..<Suc j + m],
        \<lambda>n. ?rnd' (n + 3 * m))"
    by (rule Suc.IH)
  also have "\<dots> = (hs @ map (\<lambda>i. make_harmonic sp br i (\<lambda>n. rnd (n + 3 * (i - j)))) [j..<j + Suc m],
        \<lambda>n. rnd (n + 3 * Suc m))"
    unfolding tail rest upt by simp
  finally show ?case .
qed

lemma harmonics_generateHarmonics:
  "harmonics (generateHarmonics sp) =
     map (\<lambda>i. make_harmonic sp (min (width sp) (height sp) * 0.35) i (\<lambda>n. random sp (n + 3 * i)))
       [0..<length PRIMES]"
  using generateHarmonics_loop_upt[of sp _ 0 "length PRIMES" "[]" "random sp"]
  by (simp add: generateHarmonics_def Let_def)

lemma random_generateHarmonics:
  "random (generateHarmonics sp) = (\<lambda>n. random sp (n + 3 * length PRIMES))"
  using generateHarmonics_loop_upt[of sp _ 0 "length PRIMES" "[]" "random sp"]
  by (simp add: generateHarmonics_def Let_def)

lemma length_PRIMES: "length PRIMES = 25"
  by (simp add: PRIMES_def)

lemma make_harmonic_fields:
  "amplitude (make_harmonic sp br i rnd) = 0"
  "glow (make_harmonic sp br i rnd) = 0"
  "prime (make_harmonic sp br i rnd) = PRIMES ! i"
  "h_id (make_harmonic sp br i rnd) = ''prime_'' @ show_nat (PRIMES ! i)"
  "visibilityDepth (make_harmonic sp br i rnd) = max 0 ((real i - 4) / 15)"
  "phase (make_harmonic sp br i rnd) = rnd 0 * pi * 2"
  "wanderAngle (make_harmonic sp br i rnd) = rnd 1 * pi * 2"
  "wanderSpeed (make_harmonic sp br i rnd) = 0.1 + rnd 2 * 0.2"
  by (simp_all add: make_harmonic_def Let_def)

lemma map_prime_generateHarmonics: "map prime (harmonics (generateHarmonics sp)) = PRIMES"
  by (simp add: harmonics_generateHarmonics make_harmonic_fields o_def map_nth)

lemma map_h_id_generateHarmonics:
  "map h_id (harmonics (generateHarmonics sp)) = map (\<lambda>p. ''prime_'' @ show_nat p) PRIMES"
proof -
  have "map h_id (harmonics (generateHarmonics sp)) =
        map (\<lambda>i. (\<lambda>p. ''prime_'' @ show_nat p) (PRIMES ! i)) [0..<length PRIMES]"
    by (simp add: harmonics_generateHarmonics make_harmonic_fields o_def)
  also have "\<dots> = map (\<lambda>p. ''prime_'' @ show_nat p) (map (\<lambda>i. PRIMES ! i) [0..<length PRIMES])"
    by (simp add: o_def)
  finally show ?thesis by (simp only: map_nth)
qed

lemma depth_generateHarmonics: "depth (generateHarmonics sp) = depth sp"
  by (simp add: generateHarmonics_def Let_def split: prod.splits)

lemma time_generateHarmonics: "time (generateHarmonics sp) = time sp"
  by (simp add: generateHarmonics_def Let_def split: prod.splits)

lemma harmonics_generateHarmonics_Cons:
  "harmonics (generateHarmonics sp) =
     make_harmonic sp (min (width sp) (height sp) * 0.35) 0 (random sp) #
     map (\<lambda>i. make_harmonic sp (min (width sp) (height sp) * 0.35) i (\<lambda>n. random sp (n + 3 * i)))
       [1..<25]"
proof -
  have "[0..<25] = 0 # [1..<25]" by (simp add: upt_conv_Cons)
  then show ?thesis
    by (simp add: harmonics_generateHarmonics length_PRIMES)
qed

lemma h_id_make_harmonic_0: "h_id (make_harmonic sp br 0 rnd) = ''prime_2''"
  by (simp add: make_harmonic_fields PRIMES_def show_nat.simps)

lemma h_size_make_harmonic_0: "h_size (make_harmonic sp br 0 rnd) = 30"
  by (simp add: make_harmonic_def Let_def)

lemma hd_new_space:
  "hd (harmonics (new_space w h rnd)) =
     make_harmonic \<lparr>width = w, height = h, center_x = w / 2, center_y = h / 2, depth = 0, time = 0,
        harmonics = [], random = rnd\<rparr> (min w h * 0.35) 0 rnd"
  by (simp add: new_space_def harmonics_generateHarmonics_Cons)

lemma depth_new_space: "depth (new_space w h rnd) = 0"
  by (simp add: new_space_def depth_generateHarmonics)

lemma make_harmonic_center:
  "center_x sp = center_x sp' \<Longrightarrow> center_y sp = center_y sp' \<Longrightarrow>
   make_harmonic sp br i rnd = make_harmonic sp' br i rnd"
  by (simp add: make_harmonic_def)

subsection \<open>Visibility\<close>

lemma visibilityDepth_le_03:
  "(visibilityDepth (make_harmonic sp br i rnd) \<le> 0 + 0.3) = (i \<le> 8)"
proof (cases "i \<le> 8")
  case True
  then have "real i \<le> 8" by simp
  then have "max 0 ((real i - 4) / 15) \<le> 0 + 0.3" by (simp add: max_def)
  with True show ?thesis by (simp only: make_harmonic_fields)
next
  case False
  then have "9 \<le> real i" by simp
  then have "\<not> max 0 ((real i - 4) / 15) \<le> 0 + 0.3" by (simp add: max_def)
  with False show ?thesis by (simp only: make_harmonic_fields)
qed

lemma filter_le_8: "filter (\<lambda>i. i \<le> 8) [0..<25] = [0..<9]"
  by (simp add: upt_rec)

lemma visible_generateHarmonics_depth_0:
  assumes "depth sp = 0"
  shows "getVisibleHarmonics (generateHarmonics sp) = take 9 (harmonics (generateHarmonics sp))"
proof -
  let ?mk = "\<lambda>i. make_harmonic sp (min (width sp) (height sp) * 0.35) i (\<lambda>n. random sp (n + 3 * i))"
  have "getVisibleHarmonics (generateHarmonics sp) =
        filter (\<lambda>a. visibilityDepth a \<le> 0 + 0.3) (map ?mk [0..<25])"
    by (simp only: getVisibleHarmonics_def depth_generateHarmonics assms
        harmonics_generateHarmonics length_PRIMES)
  also have "\<dots> = map ?mk (filter (\<lambda>i. visibilityDepth (?mk i) \<le> 0 + 0.3) [0..<25])"
    by (simp only: filter_map o_def)
  also have "\<dots> = map ?mk (filter (\<lambda>i. i \<le> 8) [0..<25])"
    by (simp only: visibilityDepth_le_03)
  also have "\<dots> = map ?mk (take 9 [0..<25])"
    by (simp only: filter_le_8) simp
  also have "\<dots> = take 9 (harmonics (generateHarmonics sp))"
    by (simp only: harmonics_generateHarmonics length_PRIMES take_map)
  finally show ?thesis .
qed

lemma hd_visible_new_space:
  "hd (harmonics (new_space w h rnd)) \<in> set (getVisibleHarmonics (new_space w h rnd))"
proof -
  have "getVisibleHarmonics (new_space w h rnd) = take 9 (harmonics (new_space w h rnd))"
    unfolding new_space_def by (rule visible_generateHarmonics_depth_0) simp
  moreover have "harmonics (new_space w h rnd) \<noteq> []"
    by (simp add: new_space_def harmonics_generateHarmonics_Cons)
  ultimately show ?thesis
    by (cases "harmonics (new_space w h rnd)") simp_all
qed

lemma visible_mono:
  "d1 \<le> d2 \<Longrightarrow> set (getVisibleHarmonics (sp\<lparr>depth := d1\<rparr>)) \<subseteq> set (getVisibleHarmonics (sp\<lparr>depth := d2\<rparr>))"
  by (auto simp: getVisibleHarmonics_def)

lemma visible_mono_setDepth:
  "d1 \<le> d2 \<Longrightarrow> set (getVisibleHarmonics (setDepth d1 sp)) \<subseteq> set (getVisibleHarmonics (setDepth d2 sp))"
  by (auto simp: getVisibleHarmonics_def setDepth_def)

text \<open>
  C4 (as amended). A new space is at depth 0, where \<^verbatim>\<open>getVisibleHarmonics\<close> returns exactly
  the harmonics whose \<^verbatim>\<open>visibilityDepth\<close> is at most 0.3; these are the harmonics of the
  first nine primes (indices 0 to 8: 2, 3, 5, 7, 11, 13, 17, 19, 23), since
  \<open>(i - 4) / 15 \<le> 0.3\<close> holds up to \<open>i = 8\<close>. For two depths \<open>d1 \<le> d2\<close>, every harmonic
  visible at \<open>d1\<close> is visible at \<open>d2\<close>.
\<close>

theorem visible_at_depth_0_and_monotone:
  "depth (new_space w h rnd) = 0 \<and>
   getVisibleHarmonics (new_space w h rnd) =
     filter (\<lambda>a. visibilityDepth a \<le> 0.3) (harmonics (new_space w h rnd)) \<and>
   getVisibleHarmonics (new_space w h rnd) = take 9 (harmonics (new_space w h rnd)) \<and>
   map prime (getVisibleHarmonics (new_space w h rnd)) = take 9 PRIMES \<and>
   (d1 \<le> d2 \<longrightarrow>
      set (getVisibleHarmonics (sp\<lparr>depth := d1\<rparr>)) \<subseteq> set (getVisibleHarmonics (sp\<lparr>depth := d2\<rparr>)) \<and>
      set (getVisibleHarmonics (setDepth d1 sp)) \<subseteq> set (getVisibleHarmonics (setDepth d2 sp)))"
proof -
  have a: "getVisibleHarmonics (new_space w h rnd) =
     filter (\<lambda>a. visibilityDepth a \<le> 0.3) (harmonics (new_space w h rnd))"
    by (simp add: getVisibleHarmonics_def depth_new_space)
  have b: "getVisibleHarmonics (new_space w h rnd) = take 9 (harmonics (new_space w h rnd))"
    unfolding new_space_def by (rule visible_generateHarmonics_depth_0) simp
  have c: "map prime (getVisibleHarmonics (new_space w h rnd)) = take 9 PRIMES"
    unfolding b by (simp add: new_space_def take_map[symmetric] map_prime_generateHarmonics)
  show ?thesis
    using a b c visible_mono visible_mono_setDepth depth_new_space by blast
qed

theorem visible_at_depth_0_and_monotone_witness:
  "(0::real) \<le> 1 \<and>
   map prime (getVisibleHarmonics (new_space 800 600 (\<lambda>n. 0))) = [2, 3, 5, 7, 11, 13, 17, 19, 23] \<and>
   set (getVisibleHarmonics (setDepth 0 (new_space 800 600 (\<lambda>n. 0))))
     \<subseteq> set (getVisibleHarmonics (setDepth 1 (new_space 800 600 (\<lambda>n. 0))))"
proof -
  note t = visible_at_depth_0_and_monotone[of 800 600 "\<lambda>n. 0" 0 1 "new_space 800 600 (\<lambda>n. 0)"]
  from t have "map prime (getVisibleHarmonics (new_space 800 600 (\<lambda>n. 0))) = take 9 PRIMES"
    by blast
  then have "map prime (getVisibleHarmonics (new_space 800 600 (\<lambda>n. 0))) =
      [2, 3, 5, 7, 11, 13, 17, 19, 23]"
    by (simp add: PRIMES_def)
  moreover from t have "set (getVisibleHarmonics (setDepth 0 (new_space 800 600 (\<lambda>n. 0))))
     \<subseteq> set (getVisibleHarmonics (setDepth 1 (new_space 800 600 (\<lambda>n. 0))))"
    by simp
  ultimately show ?thesis by simp
qed

text \<open>
  C4 as stated fails: at depth 0 the nine harmonics of the primes 2 to 23 are visible, not
  only those of the first five primes.
\<close>

theorem first_five_primes_counterexample:
  "depth (new_space 800 600 (\<lambda>n. 0)) = 0 \<and>
   map prime (getVisibleHarmonics (new_space 800 600 (\<lambda>n. 0))) = [2, 3, 5, 7, 11, 13, 17, 19, 23] \<and>
   getVisibleHarmonics (new_space 800 600 (\<lambda>n. 0)) \<noteq> take 5 (harmonics (new_space 800 600 (\<lambda>n. 0)))"
proof -
  let ?S = "new_space 800 600 (\<lambda>n. 0)"
  have b: "getVisibleHarmonics ?S = take 9 (harmonics ?S)"
    unfolding new_space_def by (rule visible_generateHarmonics_depth_0) simp
  have len: "length (harmonics ?S) = 25"
    by (simp add: new_space_def harmonics_generateHarmonics length_PRIMES)
  have c: "map prime (getVisibleHarmonics ?S) = [2, 3, 5, 7, 11, 13, 17, 19, 23]"
    unfolding b by (simp add: new_space_def take_map[symmetric] map_prime_generateHarmonics PRIMES_def)
  have "length (getVisibleHarmonics ?S) = 9" unfolding b using len by simp
  moreover have "length (take 5 (harmonics ?S)) = 5" using len by simp
  ultimately have "getVisibleHarmonics ?S \<noteq> take 5 (harmonics ?S)" by auto
  with c depth_new_space show ?thesis by simp
qed

subsection \<open>Lookup by id and the amplitude setter\<close>

lemma set_first_amplitude_absent:
  "find (\<lambda>a. h_id a = i) hs = None \<Longrightarrow> set_first_amplitude i v hs = hs"
  by (induction hs) (auto split: if_splits)

lemma find_set_first_amplitude:
  "find (\<lambda>a. h_id a = i) hs = Some a \<Longrightarrow>
   find (\<lambda>a. h_id a = i) (set_first_amplitude i v hs) = Some (a\<lparr>amplitude := v\<rparr>)"
  by (induction hs) (auto split: if_splits)

lemma set_first_amplitude_in_range:
  "list_all (\<lambda>a. 0 \<le> amplitude a \<and> amplitude a \<le> 0.8) hs \<Longrightarrow> 0 \<le> v \<Longrightarrow> v \<le> 0.8 \<Longrightarrow>
   list_all (\<lambda>a. 0 \<le> amplitude a \<and> amplitude a \<le> 0.8) (set_first_amplitude i v hs)"
  by (induction hs) auto

lemma getHarmonic_prime_2:
  "getHarmonic ''prime_2'' (generateHarmonics sp) =
     Some (make_harmonic sp (min (width sp) (height sp) * 0.35) 0 (random sp))"
  by (simp add: getHarmonic_def harmonics_generateHarmonics_Cons h_id_make_harmonic_0)

lemma getHarmonic_setHarmonicAmplitude:
  "getHarmonic i sp = Some a \<Longrightarrow>
   getHarmonic i (setHarmonicAmplitude i v sp) = Some (a\<lparr>amplitude := v\<rparr>)"
  by (simp add: getHarmonic_def setHarmonicAmplitude_def find_set_first_amplitude)

lemma getHarmonic_in_set: "getHarmonic i sp = Some a \<Longrightarrow> a \<in> set (harmonics sp)"
  by (auto simp: getHarmonic_def find_Some_iff)

lemma getHarmonic_None_iff: "(getHarmonic i sp = None) = (i \<notin> set (map h_id (harmonics sp)))"
  by (auto simp: getHarmonic_def find_None_iff)

subsection \<open>The proximity query\<close>

lemma near_loop_eq:
  "near_loop x y radius hs acc =
     acc @ map (\<lambda>a. \<lparr>harmonic = a,
                      distance = sqrt ((h_x a - x) * (h_x a - x) + (h_y a - y) * (h_y a - y)),
                      influence = max 0 (1 - sqrt ((h_x a - x) * (h_x a - x) + (h_y a - y) * (h_y a - y))
                                             / (radius + h_size a))\<rparr>)
             (filter (\<lambda>a. sqrt ((h_x a - x) * (h_x a - x) + (h_y a - y) * (h_y a - y))
                            < radius + h_size a) hs)"
  by (induction hs arbitrary: acc) (simp_all add: Let_def)

lemma getHarmonicsNear_eq:
  "getHarmonicsNear x y radius sp =
     sort_key distance
       (map (\<lambda>a. \<lparr>harmonic = a,
                   distance = sqrt ((h_x a - x) * (h_x a - x) + (h_y a - y) * (h_y a - y)),
                   influence = max 0 (1 - sqrt ((h_x a - x) * (h_x a - x) + (h_y a - y) * (h_y a - y))
                                          / (radius + h_size a))\<rparr>)
          (filter (\<lambda>a. sqrt ((h_x a - x) * (h_x a - x) + (h_y a - y) * (h_y a - y))
                         < radius + h_size a) (getVisibleHarmonics sp)))"
  by (simp add: getHarmonicsNear_def Let_def near_loop_eq)

lemma influence_getHarmonicsNear:
  "n \<in> set (getHarmonicsNear x y radius sp) \<Longrightarrow> 0 \<le> influence n"
  by (auto simp: getHarmonicsNear_eq)

lemma near_own_position:
  assumes "a \<in> set (getVisibleHarmonics sp)" and "0 < radius + h_size a"
  shows "\<lparr>harmonic = a, distance = 0, influence = 1\<rparr> \<in> set (getHarmonicsNear (h_x a) (h_y a) radius sp)"
proof -
  have "\<lparr>harmonic = a, distance = sqrt ((h_x a - h_x a) * (h_x a - h_x a) + (h_y a - h_y a) * (h_y a - h_y a)),
         influence = max 0 (1 - sqrt ((h_x a - h_x a) * (h_x a - h_x a) + (h_y a - h_y a) * (h_y a - h_y a))
                                / (radius + h_size a))\<rparr>
        \<in> set (getHarmonicsNear (h_x a) (h_y a) radius sp)"
    unfolding getHarmonicsNear_eq set_sort set_map set_filter
    using assms by (intro imageI CollectI conjI) simp_all
  then show ?thesis by simp
qed

text \<open>
  C7. The result of \<^verbatim>\<open>getHarmonicsNear(x, y, radius)\<close> has one entry for each visible
  harmonic whose Euclidean distance to \<open>(x, y)\<close> is strictly less than \<open>radius + size\<close>, and
  no other; the entry carries that distance and the influence
  \<open>max 0 (1 - distance / (radius + size))\<close>; the entries are in ascending order of distance.
  With the radius 120, a visible harmonic at distance 60 with size 20 has the influence
  \<open>1 - 60 / 140\<close>, which is 0.571 to three places.
\<close>

theorem getHarmonicsNear_contract:
  "mset (getHarmonicsNear x y radius sp) =
     image_mset
       (\<lambda>a. \<lparr>harmonic = a,
              distance = sqrt ((h_x a - x) * (h_x a - x) + (h_y a - y) * (h_y a - y)),
              influence = max 0 (1 - sqrt ((h_x a - x) * (h_x a - x) + (h_y a - y) * (h_y a - y))
                                     / (radius + h_size a))\<rparr>)
       (filter_mset
          (\<lambda>a. sqrt ((h_x a - x) * (h_x a - x) + (h_y a - y) * (h_y a - y)) < radius + h_size a)
          (mset (getVisibleHarmonics sp))) \<and>
   sorted (map distance (getHarmonicsNear x y radius sp)) \<and>
   (a \<in> set (getVisibleHarmonics sp) \<and>
    sqrt ((h_x a - x) * (h_x a - x) + (h_y a - y) * (h_y a - y)) = 60 \<and> h_size a = 20 \<longrightarrow>
      \<lparr>harmonic = a, distance = 60, influence = 1 - 60 / 140\<rparr>
        \<in> set (getHarmonicsNear x y 120 sp) \<and>
      \<bar>1 - 60 / 140 - 0.571\<bar> < (0.001::real))"
proof -
  have m: "mset (getHarmonicsNear x y radius sp) =
     image_mset
       (\<lambda>a. \<lparr>harmonic = a,
              distance = sqrt ((h_x a - x) * (h_x a - x) + (h_y a - y) * (h_y a - y)),
              influence = max 0 (1 - sqrt ((h_x a - x) * (h_x a - x) + (h_y a - y) * (h_y a - y))
                                     / (radius + h_size a))\<rparr>)
       (filter_mset
          (\<lambda>a. sqrt ((h_x a - x) * (h_x a - x) + (h_y a - y) * (h_y a - y)) < radius + h_size a)
          (mset (getVisibleHarmonics sp)))"
    by (simp only: getHarmonicsNear_eq mset_sort mset_map mset_filter)
  have s: "sorted (map distance (getHarmonicsNear x y radius sp))"
    by (simp only: getHarmonicsNear_eq sorted_sort_key)
  have c: "\<lparr>harmonic = a, distance = 60, influence = 1 - 60 / 140\<rparr>
        \<in> set (getHarmonicsNear x y 120 sp)"
    if vis: "a \<in> set (getVisibleHarmonics sp)"
      and d: "sqrt ((h_x a - x) * (h_x a - x) + (h_y a - y) * (h_y a - y)) = 60"
      and sz: "h_size a = 20"
  proof -
    have "\<lparr>harmonic = a,
           distance = sqrt ((h_x a - x) * (h_x a - x) + (h_y a - y) * (h_y a - y)),
           influence = max 0 (1 - sqrt ((h_x a - x) * (h_x a - x) + (h_y a - y) * (h_y a - y))
                                  / (120 + h_size a))\<rparr>
          \<in> set (getHarmonicsNear x y 120 sp)"
      unfolding getHarmonicsNear_eq set_sort set_map set_filter
      using vis d sz by (intro imageI CollectI conjI) simp_all
    then show ?thesis by (simp add: d sz)
  qed
  have approx: "\<bar>1 - 60 / 140 - 0.571\<bar> < (0.001::real)" by simp
  from m s c approx show ?thesis by blast
qed

theorem getHarmonicsNear_contract_witness:
  "scenario_harmonic \<in> set (getVisibleHarmonics scenario_space) \<and>
   sqrt ((h_x scenario_harmonic - 0) * (h_x scenario_harmonic - 0) +
         (h_y scenario_harmonic - 0) * (h_y scenario_harmonic - 0)) = 60 \<and>
   h_size scenario_harmonic = 20 \<and>
   \<lparr>harmonic = scenario_harmonic, distance = 60, influence = 4 / 7\<rparr>
     \<in> set (getHarmonicsNear 0 0 120 scenario_space) \<and>
   getHarmonicsNear 0 0 120 scenario_space =
     [\<lparr>harmonic = scenario_harmonic, distance = 60, influence = 4 / 7\<rparr>]"
proof -
  have vis: "scenario_harmonic \<in> set (getVisibleHarmonics scenario_space)"
    by (simp add: getVisibleHarmonics_def scenario_space_def scenario_harmonic_def)
  have "sqrt (60 * 60) = \<bar>60::real\<bar>" by (rule real_sqrt_abs2)
  then have "sqrt 3600 = (60::real)" by simp
  then have d: "sqrt ((h_x scenario_harmonic - 0) * (h_x scenario_harmonic - 0) +
         (h_y scenario_harmonic - 0) * (h_y scenario_harmonic - 0)) = 60"
    by (simp add: scenario_harmonic_def)
  have sz: "h_size scenario_harmonic = 20" by (simp add: scenario_harmonic_def)
  from getHarmonicsNear_contract[of 0 0 120 scenario_space scenario_harmonic] vis d sz
  have mem: "\<lparr>harmonic = scenario_harmonic, distance = 60, influence = 1 - 60 / 140\<rparr>
     \<in> set (getHarmonicsNear 0 0 120 scenario_space)" by blast
  have "length (getHarmonicsNear 0 0 120 scenario_space) \<le> 1"
    by (simp add: getHarmonicsNear_eq getVisibleHarmonics_def scenario_space_def)
  with mem have "getHarmonicsNear 0 0 120 scenario_space =
     [\<lparr>harmonic = scenario_harmonic, distance = 60, influence = 1 - 60 / 140\<rparr>]"
    by (cases "getHarmonicsNear 0 0 120 scenario_space") auto
  with vis d sz mem show ?thesis by simp
qed

subsection \<open>The range of the amplitudes\<close>

lemma amplitude_update_harmonic: "amplitude (update_harmonic t dt a) = amplitude a"
  by (simp add: update_harmonic_def Let_def)

lemma amplitudes_in_range_generateHarmonics: "amplitudes_in_range (generateHarmonics sp)"
  by (simp add: amplitudes_in_range_def harmonics_generateHarmonics list_all_iff
      make_harmonic_fields)

lemma apply_op_in_range:
  "amplitude_input_ok op \<Longrightarrow> amplitudes_in_range sp \<Longrightarrow> amplitudes_in_range (apply_op op sp)"
proof (cases op)
  case (SetHarmonicAmplitude i v)
  assume "amplitude_input_ok op" "amplitudes_in_range sp"
  with SetHarmonicAmplitude show ?thesis
    using set_first_amplitude_in_range[of "harmonics sp" v i]
    by (simp add: amplitudes_in_range_def setHarmonicAmplitude_def)
next
  case (SetDepth d)
  assume "amplitudes_in_range sp"
  with SetDepth show ?thesis by (simp add: amplitudes_in_range_def setDepth_def)
next
  case (Update dt)
  assume "amplitudes_in_range sp"
  with Update show ?thesis
    by (simp add: amplitudes_in_range_def update_def Let_def list_all_iff amplitude_update_harmonic)
next
  case (Resize w h)
  then show ?thesis
    by (simp add: resize_def Let_def amplitudes_in_range_generateHarmonics)
qed

lemma run_ops_in_range:
  "list_all amplitude_input_ok ops \<Longrightarrow> amplitudes_in_range sp \<Longrightarrow>
   amplitudes_in_range (run_ops ops sp)"
  unfolding run_ops_def
  by (induction ops arbitrary: sp) (auto simp: apply_op_in_range)

lemma cursor_amplitude_range:
  assumes "0 \<le> influence n"
  shows "0 \<le> cursor_amplitude b n \<and> cursor_amplitude b n \<le> 0.8"
proof -
  define c :: real where "c = (if b then 0.6 else 0.25)"
  define a where "a = influence n * c * (1 / sqrt (real (prime (harmonic n)) / 2))"
  have "0 \<le> c" by (simp add: c_def)
  with assms have "0 \<le> a" by (simp add: a_def)
  have eq: "cursor_amplitude b n = min 0.8 a"
    by (simp add: cursor_amplitude_def Let_def a_def c_def)
  have "0 \<le> min 0.8 a" using \<open>0 \<le> a\<close> by simp
  moreover have "min 0.8 a \<le> 0.8" by (rule min.cobounded1)
  ultimately show ?thesis unfolding eq by (rule conjI)
qed

text \<open>
  C1 as stated fails: \<^verbatim>\<open>setHarmonicAmplitude\<close> does not clamp. On a new space the call
  with the amplitude 5 for \<^verbatim>\<open>prime_2\<close> stores 5.
\<close>

theorem setHarmonicAmplitude_stores_unclamped_counterexample:
  "map_option amplitude
     (getHarmonic ''prime_2'' (setHarmonicAmplitude ''prime_2'' 5 (new_space 800 600 (\<lambda>n. 0))))
     = Some 5 \<and>
   \<not> amplitudes_in_range (setHarmonicAmplitude ''prime_2'' 5 (new_space 800 600 (\<lambda>n. 0)))"
proof -
  let ?S = "new_space 800 600 (\<lambda>n. 0)"
  obtain a where a: "getHarmonic ''prime_2'' ?S = Some a"
    by (simp add: new_space_def getHarmonic_prime_2)
  have b: "getHarmonic ''prime_2'' (setHarmonicAmplitude ''prime_2'' 5 ?S) = Some (a\<lparr>amplitude := 5\<rparr>)"
    using a by (rule getHarmonic_setHarmonicAmplitude)
  then have "a\<lparr>amplitude := 5\<rparr> \<in> set (harmonics (setHarmonicAmplitude ''prime_2'' 5 ?S))"
    by (rule getHarmonic_in_set)
  moreover have "\<not> (0 \<le> amplitude (a\<lparr>amplitude := 5\<rparr>) \<and> amplitude (a\<lparr>amplitude := 5\<rparr>) \<le> 0.8)"
    by simp
  ultimately have "\<not> amplitudes_in_range (setHarmonicAmplitude ''prime_2'' 5 ?S)"
    unfolding amplitudes_in_range_def list_all_iff by blast
  with b show ?thesis by simp
qed

text \<open>
  C1 (as amended). Starting from a new space, after any sequence of calls of
  \<^verbatim>\<open>setHarmonicAmplitude\<close>, \<^verbatim>\<open>setDepth\<close>, \<^verbatim>\<open>update\<close> and \<^verbatim>\<open>resize\<close> in which every
  amplitude passed lies in \<open>[0, 0.8]\<close>, every harmonic's amplitude lies in \<open>[0, 0.8]\<close>.
  \<^verbatim>\<open>setHarmonicAmplitude\<close> stores the amplitude it is given, as it is. The bound is kept by
  the caller: the amplitude that \<^verbatim>\<open>updateHarmonicsFromCursor\<close> computes for an entry of
  \<^verbatim>\<open>getHarmonicsNear\<close> lies in \<open>[0, 0.8]\<close>.
\<close>

theorem amplitude_in_range_for_in_range_inputs:
  "(list_all amplitude_input_ok ops \<longrightarrow> amplitudes_in_range (run_ops ops (new_space w h rnd))) \<and>
   (getHarmonic i sp = Some a \<longrightarrow>
      getHarmonic i (setHarmonicAmplitude i v sp) = Some (a\<lparr>amplitude := v\<rparr>)) \<and>
   (n \<in> set (getHarmonicsNear x y radius sp') \<longrightarrow>
      0 \<le> cursor_amplitude b n \<and> cursor_amplitude b n \<le> 0.8)"
proof -
  have "amplitudes_in_range (new_space w h rnd)"
    unfolding new_space_def by (rule amplitudes_in_range_generateHarmonics)
  then have "list_all amplitude_input_ok ops \<Longrightarrow>
      amplitudes_in_range (run_ops ops (new_space w h rnd))"
    by (simp add: run_ops_in_range)
  moreover have "n \<in> set (getHarmonicsNear x y radius sp') \<Longrightarrow>
      0 \<le> cursor_amplitude b n \<and> cursor_amplitude b n \<le> 0.8"
    by (rule cursor_amplitude_range) (rule influence_getHarmonicsNear)
  ultimately show ?thesis
    using getHarmonic_setHarmonicAmplitude by blast
qed

theorem amplitude_in_range_for_in_range_inputs_witness:
  "list_all amplitude_input_ok
     [SetHarmonicAmplitude ''prime_2'' 0.8, Update 0.1, SetDepth 1, Resize 1024 768,
      SetHarmonicAmplitude ''prime_3'' 0] \<and>
   amplitudes_in_range
     (run_ops [SetHarmonicAmplitude ''prime_2'' 0.8, Update 0.1, SetDepth 1, Resize 1024 768,
               SetHarmonicAmplitude ''prime_3'' 0] (new_space 800 600 (\<lambda>n. 0))) \<and>
   map_option amplitude
     (getHarmonic ''prime_2'' (setHarmonicAmplitude ''prime_2'' 0.8 (new_space 800 600 (\<lambda>n. 0))))
     = Some 0.8 \<and>
   \<lparr>harmonic = hd (harmonics (new_space 800 600 (\<lambda>n. 0))), distance = 0, influence = 1\<rparr>
     \<in> set (getHarmonicsNear (h_x (hd (harmonics (new_space 800 600 (\<lambda>n. 0)))))
                              (h_y (hd (harmonics (new_space 800 600 (\<lambda>n. 0))))) 120
                              (new_space 800 600 (\<lambda>n. 0))) \<and>
   0 \<le> cursor_amplitude True
          \<lparr>harmonic = hd (harmonics (new_space 800 600 (\<lambda>n. 0))), distance = 0, influence = 1\<rparr> \<and>
   cursor_amplitude True
          \<lparr>harmonic = hd (harmonics (new_space 800 600 (\<lambda>n. 0))), distance = 0, influence = 1\<rparr> \<le> 0.8"
proof -
  let ?S = "new_space 800 600 (\<lambda>n. 0)"
  let ?ops = "[SetHarmonicAmplitude ''prime_2'' 0.8, Update 0.1, SetDepth 1, Resize 1024 768,
               SetHarmonicAmplitude ''prime_3'' 0]"
  let ?n = "\<lparr>harmonic = hd (harmonics ?S), distance = 0, influence = 1\<rparr>"
  obtain a where a: "getHarmonic ''prime_2'' ?S = Some a"
    by (simp add: new_space_def getHarmonic_prime_2)
  note t = amplitude_in_range_for_in_range_inputs[of ?ops 800 600 "\<lambda>n. 0" "''prime_2''" ?S a
      "0.8" ?n "h_x (hd (harmonics ?S))" "h_y (hd (harmonics ?S))" 120 ?S True]
  have ok: "list_all amplitude_input_ok ?ops" by simp
  have near: "?n \<in> set (getHarmonicsNear (h_x (hd (harmonics ?S))) (h_y (hd (harmonics ?S))) 120 ?S)"
    by (rule near_own_position[OF hd_visible_new_space])
      (simp add: hd_new_space h_size_make_harmonic_0)
  from t ok have 1: "amplitudes_in_range (run_ops ?ops ?S)" by blast
  from t a have "getHarmonic ''prime_2'' (setHarmonicAmplitude ''prime_2'' 0.8 ?S)
      = Some (a\<lparr>amplitude := 0.8\<rparr>)" by blast
  then have 2: "map_option amplitude
      (getHarmonic ''prime_2'' (setHarmonicAmplitude ''prime_2'' 0.8 ?S)) = Some 0.8"
    by simp
  from t near have 3: "0 \<le> cursor_amplitude True ?n \<and> cursor_amplitude True ?n \<le> 0.8"
    by blast
  from ok 1 2 near 3 show ?thesis by blast
qed

subsection \<open>Resize\<close>

lemma harmonics_resize:
  "harmonics (resize w h sp) = harmonics (new_space w h (random sp))"
proof -
  let ?sp2 = "sp\<lparr>width := w, height := h, center_x := w / 2, center_y := h / 2,
     harmonics := map (\<lambda>a. a\<lparr>h_x := h_x a + (w / 2 - center_x sp), h_y := h_y a + (h / 2 - center_y sp),
                              baseX := baseX a + (w / 2 - center_x sp),
                              baseY := baseY a + (h / 2 - center_y sp)\<rparr>) (harmonics sp)\<rparr>"
  let ?sp0 = "\<lparr>width = w, height = h, center_x = w / 2, center_y = h / 2, depth = 0, time = 0,
        harmonics = [], random = random sp\<rparr>"
  have r: "resize w h sp = generateHarmonics ?sp2"
    by (simp add: resize_def Let_def)
  have "\<And>br i rnd. make_harmonic ?sp2 br i rnd = make_harmonic ?sp0 br i rnd"
    by (rule make_harmonic_center) simp_all
  then show ?thesis
    unfolding r new_space_def harmonics_generateHarmonics by simp
qed

lemma random_resize: "random (resize w h sp) = (\<lambda>n. random sp (n + 3 * length PRIMES))"
  by (simp add: resize_def Let_def random_generateHarmonics)

text \<open>
  C10. \<^verbatim>\<open>resize\<close> regenerates the whole set of harmonics: the result is the set a new
  space of the new dimensions has, whatever the harmonics were before. Every amplitude
  and every glow is 0 afterwards, and \<^verbatim>\<open>phase\<close>, \<^verbatim>\<open>wanderAngle\<close> and \<^verbatim>\<open>wanderSpeed\<close> of
  the \<open>i\<close>-th harmonic come from three new results of \<^verbatim>\<open>Math.random()\<close>.
\<close>

theorem resize_discards_amplitude_state:
  "harmonics (resize w h sp) = harmonics (new_space w h (random sp)) \<and>
   length (harmonics (resize w h sp)) = length PRIMES \<and>
   (\<forall>a \<in> set (harmonics (resize w h sp)). amplitude a = 0 \<and> glow a = 0) \<and>
   (\<forall>i < length PRIMES.
      prime (harmonics (resize w h sp) ! i) = PRIMES ! i \<and>
      phase (harmonics (resize w h sp) ! i) = random sp (3 * i) * pi * 2 \<and>
      wanderAngle (harmonics (resize w h sp) ! i) = random sp (3 * i + 1) * pi * 2 \<and>
      wanderSpeed (harmonics (resize w h sp) ! i) = 0.1 + random sp (3 * i + 2) * 0.2) \<and>
   random (resize w h sp) = (\<lambda>n. random sp (n + 3 * length PRIMES))"
proof -
  have len: "length (harmonics (resize w h sp)) = length PRIMES"
    by (simp add: harmonics_resize new_space_def harmonics_generateHarmonics)
  have zero: "\<forall>a \<in> set (harmonics (resize w h sp)). amplitude a = 0 \<and> glow a = 0"
    by (auto simp: harmonics_resize new_space_def harmonics_generateHarmonics make_harmonic_fields)
  have anim: "\<forall>i < length PRIMES.
      prime (harmonics (resize w h sp) ! i) = PRIMES ! i \<and>
      phase (harmonics (resize w h sp) ! i) = random sp (3 * i) * pi * 2 \<and>
      wanderAngle (harmonics (resize w h sp) ! i) = random sp (3 * i + 1) * pi * 2 \<and>
      wanderSpeed (harmonics (resize w h sp) ! i) = 0.1 + random sp (3 * i + 2) * 0.2"
    by (simp add: harmonics_resize new_space_def harmonics_generateHarmonics make_harmonic_fields
        add.commute)
  from len zero anim harmonics_resize random_resize show ?thesis by blast
qed

lemma hd_run_example:
  "hd (harmonics (run_ops [SetHarmonicAmplitude ''prime_2'' 0.5, Update 0.1] (new_space 800 600 (\<lambda>n. 0))))
   = update_harmonic 0.1 0.1 ((hd (harmonics (new_space 800 600 (\<lambda>n. 0))))\<lparr>amplitude := 0.5\<rparr>)"
  by (simp add: run_ops_def new_space_def harmonics_generateHarmonics_Cons setHarmonicAmplitude_def
      h_id_make_harmonic_0 update_def Let_def time_generateHarmonics)

theorem resize_discards_amplitude_state_witness:
  "amplitude (hd (harmonics (run_ops [SetHarmonicAmplitude ''prime_2'' 0.5, Update 0.1]
      (new_space 800 600 (\<lambda>n. 0))))) = 1 / 2 \<and>
   glow (hd (harmonics (run_ops [SetHarmonicAmplitude ''prime_2'' 0.5, Update 0.1]
      (new_space 800 600 (\<lambda>n. 0))))) = 1 / 4 \<and>
   amplitude (hd (harmonics (resize 1024 768 (run_ops [SetHarmonicAmplitude ''prime_2'' 0.5, Update 0.1]
      (new_space 800 600 (\<lambda>n. 0)))))) = 0 \<and>
   glow (hd (harmonics (resize 1024 768 (run_ops [SetHarmonicAmplitude ''prime_2'' 0.5, Update 0.1]
      (new_space 800 600 (\<lambda>n. 0)))))) = 0 \<and>
   (0::nat) < length PRIMES \<and>
   phase (harmonics (resize 1024 768 (run_ops [SetHarmonicAmplitude ''prime_2'' 0.5, Update 0.1]
      (new_space 800 600 (\<lambda>n. 0)))) ! 0) = 0"
proof -
  let ?sp = "run_ops [SetHarmonicAmplitude ''prime_2'' 0.5, Update 0.1] (new_space 800 600 (\<lambda>n. 0))"
  note t = resize_discards_amplitude_state[of 1024 768 ?sp]
  have before: "amplitude (hd (harmonics ?sp)) = 1 / 2 \<and> glow (hd (harmonics ?sp)) = 1 / 4"
    unfolding hd_run_example
    by (simp add: update_harmonic_def Let_def hd_new_space make_harmonic_fields)
  from t have "length (harmonics (resize 1024 768 ?sp)) = length PRIMES" by blast
  then have ne: "harmonics (resize 1024 768 ?sp) \<noteq> []" by (auto simp: length_PRIMES)
  then have "hd (harmonics (resize 1024 768 ?sp)) \<in> set (harmonics (resize 1024 768 ?sp))"
    by (rule hd_in_set)
  with t have after: "amplitude (hd (harmonics (resize 1024 768 ?sp))) = 0 \<and>
      glow (hd (harmonics (resize 1024 768 ?sp))) = 0" by blast
  have pos: "(0::nat) < length PRIMES" by (simp add: length_PRIMES)
  have rnd0: "random ?sp (3 * 0) = 0"
    by (simp add: run_ops_def new_space_def setHarmonicAmplitude_def update_def Let_def
        random_generateHarmonics)
  from t pos have "phase (harmonics (resize 1024 768 ?sp) ! 0) = random ?sp (3 * 0) * pi * 2"
    by blast
  then have ph: "phase (harmonics (resize 1024 768 ?sp) ! 0) = 0"
    by (simp only: rnd0)
  from before after pos ph show ?thesis by blast
qed

section \<open>Unknown ids, in the spatial model and in the voice manager\<close>

text \<open>
  C9. With an id that no harmonic has, \<^verbatim>\<open>setHarmonicAmplitude\<close> leaves the space as it is;
  with an id that no voice has, \<^verbatim>\<open>setVoiceAmplitude\<close> and \<^verbatim>\<open>releaseVoice\<close> return
  without an error and leave the engine as it is (no automation, no timer), also when the
  audio context is still \<^verbatim>\<open>null\<close>.
\<close>

theorem unknown_id_is_silent_noop:
  "(getHarmonic i sp = None \<longrightarrow> setHarmonicAmplitude i v sp = sp) \<and>
   (voices e i = None \<longrightarrow>
      setVoiceAmplitude i a t e = Inr e \<and> releaseVoice i fadeTime e = Inr e)"
  by (simp add: getHarmonic_def setHarmonicAmplitude_def set_first_amplitude_absent
      setVoiceAmplitude_def releaseVoice_def)

theorem unknown_id_is_silent_noop_witness:
  "getHarmonic ''prime_4'' (new_space 800 600 (\<lambda>n. 0)) = None \<and>
   setHarmonicAmplitude ''prime_4'' (1 / 2) (new_space 800 600 (\<lambda>n. 0)) = new_space 800 600 (\<lambda>n. 0) \<and>
   voices (init new_engine) ''prime_4'' = None \<and>
   setVoiceAmplitude ''prime_4'' (1 / 2) (1 / 10) (init new_engine) = Inr (init new_engine) \<and>
   releaseVoice ''prime_4'' (1 / 2) (init new_engine) = Inr (init new_engine)"
proof -
  have a: "getHarmonic ''prime_4'' (new_space 800 600 (\<lambda>n. 0)) = None"
    unfolding getHarmonic_None_iff new_space_def map_h_id_generateHarmonics
    by (simp add: PRIMES_def show_nat.simps)
  have b: "voices (init new_engine) ''prime_4'' = None"
    by (simp add: init_def new_engine_def)
  show ?thesis
    using a b
      unknown_id_is_silent_noop[of "''prime_4''" "new_space 800 600 (\<lambda>n. 0)" "1 / 2"
        "init new_engine" "1 / 2" "1 / 10" "1 / 2"]
    by simp
qed

end
